theory Spec2Isabelle
  imports Complex_Main
begin

section \<open>The launcher's renderer shell: \<^verbatim>\<open>src/renderer/app.tsx\<close>\<close>

text \<open>
  The \<^verbatim>\<open>App\<close> component is event driven: its constructor starts a chain of two
  promises, and afterwards the JavaScript event loop calls its methods one at a time
  (promise callbacks, React lifecycle methods, IPC listeners, user-interface handlers).
  The embedding has three layers:
  \<^item> the data the code declares or uses, as records;
  \<^item> every method and every promise callback of \<^verbatim>\<open>App\<close>, as a function on the
    component's world (its \<^verbatim>\<open>this.state\<close>, its private flag, the variables its closures
    capture, and the outside objects it reads and writes);
  \<^item> the event loop, as a function \<open>step\<close> that dispatches one event to the method the
    runtime would call, and \<open>run\<close> that folds it over a sequence of events.

  \<^verbatim>\<open>this.setState(partial)\<close> is modelled as React's merge of the partial state into
  \<^verbatim>\<open>this.state\<close>, applied at the call and never raising (React may apply it later in
  the same dispatch). React drops the update of an unmounted instance: the callbacks of
  the load chain, which nothing cancels at the teardown, go through that check. A
  JavaScript \<^verbatim>\<open>number\<close> is a \<open>real\<close> (the code only stores and copies it). This
  development covers \<^verbatim>\<open>app.tsx\<close>: what it calls in other files of the repository is
  a parameter of the model or is modelled from the spec, and says so.
\<close>

subsection \<open>Data\<close>

text \<open>Rejection reasons of promises are opaque values that the code only logs.\<close>

type_synonym error = string

text \<open>A reference to a \<^verbatim>\<open>GameImageCollection\<close> object in the store.\<close>

type_synonym ref = nat

text \<open>
  \<^verbatim>\<open>IGameCollection\<close>: the code reads and builds the field \<^verbatim>\<open>games\<close>. The type of a
  game is declared outside \<^verbatim>\<open>app.tsx\<close> and is a parameter \<open>'g\<close>; so are the search event
  \<open>'s\<close>, the order event \<open>'o\<close> and the enumeration \<^verbatim>\<open>BrowsePageLayout\<close> \<open>'l\<close>.
\<close>

record 'g IGameCollection =
  games :: "'g list"

text \<open>\<^verbatim>\<open>IAppConfigData\<close>: the two fields the code reads.\<close>

record IAppConfigData =
  config_flashpointPath :: string
  config_useCustomTitlebar :: bool

text \<open>\<^verbatim>\<open>window.External.preferences.data\<close>: the three fields the code reads and writes.\<close>

record 'l IAppPreferencesData =
  browsePageGameScale :: real
  browsePageLayout :: 'l
  browsePageShowExtreme :: bool

text \<open>
  Modelled from the spec: the class \<^verbatim>\<open>GameImageCollection\<close> (the spec's ImageIndex) is
  not in \<^verbatim>\<open>app.tsx\<close>. The spec says: created once from the root path, platforms
  registered incrementally, never replaced, only grown; re-adding a known platform is a
  no-op, not a duplicate entry. The index is the list of registered platform identifiers,
  in the order of registration.
\<close>

record GameImageCollection =
  index_flashpointPath :: string
  platforms :: "string list"

definition new_GameImageCollection :: "string \<Rightarrow> GameImageCollection" where
  "new_GameImageCollection rootPath = \<lparr>index_flashpointPath = rootPath, platforms = []\<rparr>"

fun register :: "string list \<Rightarrow> string list \<Rightarrow> string list" where
  "register ps [] = ps"
| "register ps (n # ns) = register (if n \<in> set ps then ps else ps @ [n]) ns"

definition addPlatforms :: "string list \<Rightarrow> GameImageCollection \<Rightarrow> GameImageCollection" where
  "addPlatforms names gi = gi\<lparr>platforms := register (platforms gi) names\<rparr>"

text \<open>
  Modelled from the spec: the main process and its log channel (the spec's LogChannel)
  are not in \<^verbatim>\<open>app.tsx\<close>. The spec says the channel pushes full log snapshots, not
  increments, and that a replay is a forced re-delivery of the current full log snapshot.
  \<open>mainLog\<close> is the main process's log buffer and \<open>ipcQueue\<close> the snapshots sent to
  the renderer and not yet delivered. \<open>requestReplay\<close> is what
  \<^verbatim>\<open>window.External.resendLogDataUpdate()\<close> makes the main process do, and \<open>push\<close>
  what it does when its log changes: in the spec's words, messages emitted before
  subscription are lost, so a snapshot pushed while nobody is subscribed reaches nobody.
\<close>

record LogChannel =
  mainLog :: string
  ipcQueue :: "string list"

definition requestReplay :: "LogChannel \<Rightarrow> LogChannel" where
  "requestReplay ch = ch\<lparr>ipcQueue := ipcQueue ch @ [mainLog ch]\<rparr>"

definition push :: "nat \<Rightarrow> string \<Rightarrow> LogChannel \<Rightarrow> LogChannel" where
  "push subscribers fullLog ch =
     (if subscribers = 0 then ch\<lparr>mainLog := fullLog\<rparr>
      else ch\<lparr>mainLog := fullLog, ipcQueue := ipcQueue ch @ [fullLog]\<rparr>)"

text \<open>\<^verbatim>\<open>ICentralState\<close>, as \<^verbatim>\<open>onDataLoaded\<close> builds it; \<^verbatim>\<open>gameImages\<close> is a reference.\<close>

record 'g ICentralState =
  collection :: "'g IGameCollection"
  flashpointPath :: string
  gameImages :: ref

text \<open>\<^verbatim>\<open>IAppState\<close> (lines 23 to 37); an optional field is an \<open>option\<close>.\<close>

record ('g, 's, 'o, 'l) IAppState =
  central :: "'g ICentralState option"
  search :: "'s option"
  order :: "'o option"
  logData :: string
  config :: IAppConfigData
  gameScale :: real
  gameLayout :: 'l
  showExtreme :: bool
  useCustomTitlebar :: bool

subsection \<open>The world of one component instance\<close>

text \<open>
  What the component does to the outside is recorded, in the order it happens, as a list
  of effects: calls to \<^verbatim>\<open>LaunchboxData\<close>, \<^verbatim>\<open>GameImageCollection.addPlatforms\<close>,
  \<^verbatim>\<open>console.error\<close>, \<^verbatim>\<open>ipcRenderer\<close> and \<^verbatim>\<open>window.External\<close>, writes to the
  preferences, calls of \<^verbatim>\<open>setState\<close> and of \<^verbatim>\<open>onDataLoaded\<close>, and the
  \<^verbatim>\<open>Redirect\<close> element that \<^verbatim>\<open>render\<close> returns.
\<close>

datatype state_field =
  F_central | F_search | F_order | F_logData | F_gameScale | F_gameLayout | F_showExtreme

datatype pref_field = P_browsePageGameScale | P_browsePageLayout | P_browsePageShowExtreme

datatype effect =
    FetchPlatformFilenames string
  | FetchPlatforms string "string list"
  | AddPlatforms "string list"
  | ConsoleError error
  | OnDataLoaded
  | SetState state_field
  | PrefWrite pref_field
  | IpcOn
  | IpcRemoveListener
  | ResendLogDataUpdate
  | RedirectBrowse

text \<open>The promise chain of the constructor waits for stage 1, for stage 2, or is done.\<close>

datatype load_phase = Stage1_pending | Stage2_pending | Settled

text \<open>React mounts a component instance once and unmounts it once.\<close>

datatype lifecycle_phase = Constructed | Mounted | Unmounted

text \<open>
  \<open>state\<close> is \<^verbatim>\<open>this.state\<close> and \<open>onSearch_flag\<close> is \<^verbatim>\<open>this._onSearch\<close>.
  \<open>cl_config\<close> and \<open>cl_gameImages\<close> are the constructor's constants \<^verbatim>\<open>config\<close> and
  \<^verbatim>\<open>gameImages\<close>, which the promise callbacks capture. \<open>preferences_data\<close> is
  \<^verbatim>\<open>window.External.preferences.data\<close>. \<open>heap\<close> holds the \<^verbatim>\<open>GameImageCollection\<close>
  objects. \<open>listeners\<close> counts the registrations of \<^verbatim>\<open>this.onLogDataUpdate\<close> on the
  channel \<^verbatim>\<open>log-data-update\<close> of \<^verbatim>\<open>ipcRenderer\<close>, an event emitter: \<^verbatim>\<open>on\<close> adds
  a registration and \<^verbatim>\<open>removeListener\<close> removes one. \<open>channel\<close> is the log channel
  between the main process and this renderer. \<open>load\<close> and \<open>lifecycle\<close> are the
  runtime's: which promise of the load chain is pending, and where React has brought the
  instance.
\<close>

record ('g, 's, 'o, 'l) App =
  state :: "('g, 's, 'o, 'l) IAppState"
  onSearch_flag :: bool
  cl_config :: IAppConfigData
  cl_gameImages :: ref
  preferences_data :: "'l IAppPreferencesData"
  heap :: "ref \<rightharpoonup> GameImageCollection"
  load :: load_phase
  lifecycle :: lifecycle_phase
  listeners :: nat
  channel :: LogChannel
  effects :: "effect list"

definition emit :: "effect \<Rightarrow> ('g, 's, 'o, 'l) App \<Rightarrow> ('g, 's, 'o, 'l) App" where
  "emit e w = w\<lparr>effects := effects w @ [e]\<rparr>"

text \<open>\<^verbatim>\<open>this.setState(partial)\<close>: the partial state is the update \<open>upd\<close> of its field \<open>f\<close>.\<close>

definition setState ::
  "state_field \<Rightarrow> (('g, 's, 'o, 'l) IAppState \<Rightarrow> ('g, 's, 'o, 'l) IAppState) \<Rightarrow>
   ('g, 's, 'o, 'l) App \<Rightarrow> ('g, 's, 'o, 'l) App" where
  "setState f upd w = emit (SetState f) (w\<lparr>state := upd (state w)\<rparr>)"

text \<open>
  \<^verbatim>\<open>this.setState(partial)\<close> where the instance may be unmounted by now: React drops the
  update of an unmounted instance (the call is a no-op, with a warning). The handlers of
  \<^verbatim>\<open>App\<close> are called by its mounted children and by the listener that
  \<^verbatim>\<open>componentWillUnmount\<close> removes; the callbacks of the load chain are called whenever
  their promise settles, so \<^verbatim>\<open>onDataLoaded\<close> is the call that meets this case.
\<close>

definition setState_or_drop ::
  "state_field \<Rightarrow> (('g, 's, 'o, 'l) IAppState \<Rightarrow> ('g, 's, 'o, 'l) IAppState) \<Rightarrow>
   ('g, 's, 'o, 'l) App \<Rightarrow> ('g, 's, 'o, 'l) App" where
  "setState_or_drop f upd w =
     (if lifecycle w = Unmounted then emit (SetState f) w else setState f upd w)"

subsection \<open>The methods of \<^verbatim>\<open>App\<close>\<close>

text \<open>
  \<^verbatim>\<open>platform.split('.')\<close>: JavaScript's split at a one-character separator. It never
  returns an empty array, so element 0 of the result exists.
\<close>

fun split_str :: "char \<Rightarrow> string \<Rightarrow> string list" where
  "split_str sep [] = [[]]"
| "split_str sep (c # cs) =
     (if c = sep then [] # split_str sep cs
      else (case split_str sep cs of
              [] \<Rightarrow> [[c]]
            | x # xs \<Rightarrow> (c # x) # xs))"

definition platform_name :: "string \<Rightarrow> string" where
  "platform_name platform = hd (split_str CHR ''.'' platform)"

text \<open>\<^verbatim>\<open>onDataLoaded\<close> (lines 158 to 167). An object is truthy, so
  \<^verbatim>\<open>collection || { games: [] }\<close> is the collection when one is passed.\<close>

definition onDataLoaded ::
  "ref \<Rightarrow> 'g IGameCollection option \<Rightarrow> ('g, 's, 'o, 'l) App \<Rightarrow> ('g, 's, 'o, 'l) App" where
  "onDataLoaded gameImages_arg collection_arg w =
     (let w1 = emit OnDataLoaded w in
      setState_or_drop F_central
        (\<lambda>s. s\<lparr>central := Some
           \<lparr>collection = (case collection_arg of Some c \<Rightarrow> c | None \<Rightarrow> \<lparr>games = []\<rparr>),
            flashpointPath = config_flashpointPath (config (state w1)),
            gameImages = gameImages_arg\<rparr>\<rparr>) w1)"

text \<open>The constructor (lines 42 to 86), up to the call that starts stage 1. The arguments
  are what \<^verbatim>\<open>window.External.getConfigSync()\<close> returns and
  \<^verbatim>\<open>window.External.preferences.data\<close>. The new \<^verbatim>\<open>GameImageCollection\<close> is the first
  object of the store.\<close>

definition constructor ::
  "IAppConfigData \<Rightarrow> 'l IAppPreferencesData \<Rightarrow> ('g, 's, 'o, 'l) App" where
  "constructor config_arg prefs =
     \<lparr>state =
        \<lparr>central = None, search = None, order = None, logData = [],
         config = config_arg,
         gameScale = browsePageGameScale prefs,
         gameLayout = browsePageLayout prefs,
         showExtreme = browsePageShowExtreme prefs,
         useCustomTitlebar = config_useCustomTitlebar config_arg\<rparr>,
      onSearch_flag = False,
      cl_config = config_arg,
      cl_gameImages = 0,
      preferences_data = prefs,
      heap = [0 \<mapsto> new_GameImageCollection (config_flashpointPath config_arg)],
      load = Stage1_pending,
      lifecycle = Constructed,
      listeners = 0,
      channel = \<lparr>mainLog = [], ipcQueue = []\<rparr>,
      effects = [FetchPlatformFilenames (config_flashpointPath config_arg)]\<rparr>"

text \<open>The callback of stage 1 (lines 68 to 81): register the platforms, start stage 2.\<close>

definition stage1_then :: "string list \<Rightarrow> ('g, 's, 'o, 'l) App \<Rightarrow> ('g, 's, 'o, 'l) App" where
  "stage1_then platformFilenames w =
     (let platforms_arg = map platform_name platformFilenames;
          w1 = emit (AddPlatforms platforms_arg)
                 (w\<lparr>heap := (heap w)(cl_gameImages w :=
                       map_option (addPlatforms platforms_arg) (heap w (cl_gameImages w)))\<rparr>)
      in emit (FetchPlatforms (config_flashpointPath (cl_config w1)) platformFilenames)
           (w1\<lparr>load := Stage2_pending\<rparr>))"

text \<open>The handler of a rejected stage 1 (lines 82 to 85).\<close>

definition stage1_catch :: "error \<Rightarrow> ('g, 's, 'o, 'l) App \<Rightarrow> ('g, 's, 'o, 'l) App" where
  "stage1_catch e w = onDataLoaded (cl_gameImages w) None (emit (ConsoleError e) w)"

text \<open>The callback of stage 2 (lines 74 to 76).\<close>

definition stage2_then ::
  "'g IGameCollection \<Rightarrow> ('g, 's, 'o, 'l) App \<Rightarrow> ('g, 's, 'o, 'l) App" where
  "stage2_then collection_arg w = onDataLoaded (cl_gameImages w) (Some collection_arg) w"

text \<open>The handler of a rejected stage 2 (lines 77 to 80).\<close>

definition stage2_catch :: "error \<Rightarrow> ('g, 's, 'o, 'l) App \<Rightarrow> ('g, 's, 'o, 'l) App" where
  "stage2_catch e w = onDataLoaded (cl_gameImages w) None (emit (ConsoleError e) w)"

text \<open>\<^verbatim>\<open>componentDidMount\<close> (lines 88 to 93).\<close>

definition componentDidMount :: "('g, 's, 'o, 'l) App \<Rightarrow> ('g, 's, 'o, 'l) App" where
  "componentDidMount w =
     (let w1 = emit IpcOn (w\<lparr>listeners := Suc (listeners w)\<rparr>)
      in emit ResendLogDataUpdate (w1\<lparr>channel := requestReplay (channel w1)\<rparr>))"

text \<open>\<^verbatim>\<open>componentWillUnmount\<close> (lines 95 to 97): \<^verbatim>\<open>removeListener\<close> removes one
  registration of the listener, when there is one.\<close>

definition componentWillUnmount :: "('g, 's, 'o, 'l) App \<Rightarrow> ('g, 's, 'o, 'l) App" where
  "componentWillUnmount w = emit IpcRemoveListener (w\<lparr>listeners := listeners w - 1\<rparr>)"

text \<open>\<^verbatim>\<open>onLogDataUpdate\<close> (lines 99 to 103).\<close>

definition onLogDataUpdate :: "string \<Rightarrow> ('g, 's, 'o, 'l) App \<Rightarrow> ('g, 's, 'o, 'l) App" where
  "onLogDataUpdate fullLog w = setState F_logData (\<lambda>s. s\<lparr>logData := fullLog\<rparr>) w"

text \<open>\<^verbatim>\<open>onSearch\<close> (lines 169 to 174) and \<^verbatim>\<open>onOrderChange\<close> (lines 176 to 180).\<close>

definition onSearch :: "'s \<Rightarrow> ('g, 's, 'o, 'l) App \<Rightarrow> ('g, 's, 'o, 'l) App" where
  "onSearch event_arg w =
     setState F_search (\<lambda>s. s\<lparr>search := Some event_arg\<rparr>) (w\<lparr>onSearch_flag := True\<rparr>)"

definition onOrderChange :: "'o \<Rightarrow> ('g, 's, 'o, 'l) App \<Rightarrow> ('g, 's, 'o, 'l) App" where
  "onOrderChange event_arg w = setState F_order (\<lambda>s. s\<lparr>order := Some event_arg\<rparr>) w"

text \<open>The three preference setters (lines 182 to 198).\<close>

definition onScaleSliderChange :: "real \<Rightarrow> ('g, 's, 'o, 'l) App \<Rightarrow> ('g, 's, 'o, 'l) App" where
  "onScaleSliderChange v w =
     (let w1 = setState F_gameScale (\<lambda>s. s\<lparr>gameScale := v\<rparr>) w
      in emit (PrefWrite P_browsePageGameScale)
           (w1\<lparr>preferences_data := (preferences_data w1)\<lparr>browsePageGameScale := v\<rparr>\<rparr>))"

definition onLayoutSelectorChange :: "'l \<Rightarrow> ('g, 's, 'o, 'l) App \<Rightarrow> ('g, 's, 'o, 'l) App" where
  "onLayoutSelectorChange v w =
     (let w1 = setState F_gameLayout (\<lambda>s. s\<lparr>gameLayout := v\<rparr>) w
      in emit (PrefWrite P_browsePageLayout)
           (w1\<lparr>preferences_data := (preferences_data w1)\<lparr>browsePageLayout := v\<rparr>\<rparr>))"

definition onExtremeChange :: "bool \<Rightarrow> ('g, 's, 'o, 'l) App \<Rightarrow> ('g, 's, 'o, 'l) App" where
  "onExtremeChange isChecked w =
     (let w1 = setState F_showExtreme (\<lambda>s. s\<lparr>showExtreme := isChecked\<rparr>) w
      in emit (PrefWrite P_browsePageShowExtreme)
           (w1\<lparr>preferences_data := (preferences_data w1)\<lparr>browsePageShowExtreme := isChecked\<rparr>\<rparr>))"

text \<open>\<^verbatim>\<open>render\<close> (lines 105 to 155) returns what it hands to its children, and the
  component with the flag cleared. An array is truthy, also when empty, so the game count
  is defined as soon as \<^verbatim>\<open>central\<close> is.\<close>

record ('g, 's, 'o, 'l) rendered =
  redirect :: bool
  titleBar :: bool
  header_extremeToggle :: bool
  routerProps :: "('g, 's, 'o, 'l) IAppState"
  footer_gameCount :: "nat option"
  footer_scaleSliderValue :: real
  footer_layout :: 'l

definition render ::
  "('g, 's, 'o, 'l) App \<Rightarrow> ('g, 's, 'o, 'l) rendered \<times> ('g, 's, 'o, 'l) App" where
  "render w =
     (let redirect_v = onSearch_flag w;
          w1 = (if onSearch_flag w then w\<lparr>onSearch_flag := False\<rparr> else w);
          gameCount = (case central (state w1) of
                         None \<Rightarrow> None
                       | Some c \<Rightarrow> Some (length (games (collection c))))
      in (\<lparr>redirect = redirect_v,
           titleBar = useCustomTitlebar (state w1),
           header_extremeToggle = showExtreme (state w1),
           routerProps = state w1,
           footer_gameCount = gameCount,
           footer_scaleSliderValue = gameScale (state w1),
           footer_layout = gameLayout (state w1)\<rparr>, w1))"

subsection \<open>The event loop\<close>

text \<open>
  One event is one call by the runtime: a promise of the load chain settles (a promise
  settles once, so a settlement that no promise is waiting for does nothing); React
  mounts, renders or unmounts the component (an instance is mounted once, after its
  construction, and unmounted once, after it was mounted); the main process's log changes
  and it pushes the new full log to the subscribed renderer; a pushed snapshot reaches the
  renderer and goes to every registered listener; the user searches, reorders, or changes a preference.
\<close>

datatype ('g, 's, 'o, 'l) event =
    Stage1Settled "error + string list"
  | Stage2Settled "error + 'g IGameCollection"
  | Mount
  | Render
  | Unmount
  | MainPush string
  | IpcDeliver
  | Search 's
  | OrderChange 'o
  | ScaleSlider real
  | LayoutSelector 'l
  | ExtremeToggle bool

fun step :: "('g, 's, 'o, 'l) App \<Rightarrow> ('g, 's, 'o, 'l) event \<Rightarrow> ('g, 's, 'o, 'l) App" where
  "step w (Stage1Settled r) =
     (if load w = Stage1_pending
      then (case r of
              Inr platformFilenames \<Rightarrow> stage1_then platformFilenames (w\<lparr>load := Settled\<rparr>)
            | Inl e \<Rightarrow> stage1_catch e (w\<lparr>load := Settled\<rparr>))
      else w)"
| "step w (Stage2Settled r) =
     (if load w = Stage2_pending
      then (case r of
              Inr collection_arg \<Rightarrow> stage2_then collection_arg (w\<lparr>load := Settled\<rparr>)
            | Inl e \<Rightarrow> stage2_catch e (w\<lparr>load := Settled\<rparr>))
      else w)"
| "step w Mount =
     (if lifecycle w = Constructed then componentDidMount (w\<lparr>lifecycle := Mounted\<rparr>) else w)"
| "step w Render =
     (case render w of
        (out, w1) \<Rightarrow> if redirect out then emit RedirectBrowse w1 else w1)"
| "step w Unmount =
     (if lifecycle w = Mounted then componentWillUnmount (w\<lparr>lifecycle := Unmounted\<rparr>) else w)"
| "step w (MainPush fullLog) = w\<lparr>channel := push (listeners w) fullLog (channel w)\<rparr>"
| "step w IpcDeliver =
     (case ipcQueue (channel w) of
        [] \<Rightarrow> w
      | fullLog # rest \<Rightarrow>
          ((\<lambda>w'. onLogDataUpdate fullLog w') ^^ listeners w)
            (w\<lparr>channel := (channel w)\<lparr>ipcQueue := rest\<rparr>\<rparr>))"
| "step w (Search event_arg) = onSearch event_arg w"
| "step w (OrderChange event_arg) = onOrderChange event_arg w"
| "step w (ScaleSlider v) = onScaleSliderChange v w"
| "step w (LayoutSelector v) = onLayoutSelectorChange v w"
| "step w (ExtremeToggle isChecked) = onExtremeChange isChecked w"

definition run ::
  "('g, 's, 'o, 'l) App \<Rightarrow> ('g, 's, 'o, 'l) event list \<Rightarrow> ('g, 's, 'o, 'l) App" where
  "run w evs = foldl step w evs"




subsection \<open>Vocabulary of the statements and proofs\<close>

text \<open>
  The effects of the load chain: the two fetches, the registration of platforms, the
  report of a failure, the call of \<^verbatim>\<open>onDataLoaded\<close> and its \<^verbatim>\<open>setState\<close>.
\<close>

fun load_effect :: "effect \<Rightarrow> bool" where
  "load_effect (FetchPlatformFilenames _) = True"
| "load_effect (FetchPlatforms _ _) = True"
| "load_effect (AddPlatforms _) = True"
| "load_effect (ConsoleError _) = True"
| "load_effect OnDataLoaded = True"
| "load_effect (SetState f) = (f = F_central)"
| "load_effect _ = False"

text \<open>
  What the load chain reads and writes: its phase, \<^verbatim>\<open>state.central\<close>, the two copies
  of the configuration, the reference to the image index, the store, and its own effects.
\<close>

definition load_view ::
  "('g, 's, 'o, 'l) App \<Rightarrow>
   load_phase \<times> 'g ICentralState option \<times> IAppConfigData \<times> IAppConfigData \<times> ref \<times>
   (ref \<rightharpoonup> GameImageCollection) \<times> effect list" where
  "load_view w = (load w, central (state w), config (state w), cl_config w, cl_gameImages w,
     heap w, filter load_effect (effects w))"

text \<open>The events that run a callback of the load chain, in each of its phases.\<close>

fun triggers :: "load_phase \<Rightarrow> ('g, 's, 'o, 'l) event \<Rightarrow> bool" where
  "triggers Stage1_pending (Stage1Settled _) = True"
| "triggers Stage2_pending (Stage2Settled _) = True"
| "triggers _ _ = False"

text \<open>A configuration, preferences and a component to evaluate the statements on.\<close>

definition config_example :: IAppConfigData where
  "config_example = \<lparr>config_flashpointPath = ''C:/Flashpoint'', config_useCustomTitlebar = True\<rparr>"

definition preferences_example :: "nat IAppPreferencesData" where
  "preferences_example =
     \<lparr>browsePageGameScale = 1/2, browsePageLayout = 0, browsePageShowExtreme = False\<rparr>"

definition app_example :: "(nat, string, string, nat) App" where
  "app_example = constructor config_example preferences_example"


text \<open>The in-memory preferences and \<^verbatim>\<open>window.External.preferences.data\<close> agree.\<close>

definition in_sync :: "('g, 's, 'o, 'l) App \<Rightarrow> bool" where
  "in_sync w \<longleftrightarrow>
     gameScale (state w) = browsePageGameScale (preferences_data w) \<and>
     gameLayout (state w) = browsePageLayout (preferences_data w) \<and>
     showExtreme (state w) = browsePageShowExtreme (preferences_data w)"



section \<open>Basic facts\<close>

lemma run_Nil [simp]: "run w [] = w"
  by (simp add: run_def)

lemma run_Cons [simp]: "run w (ev # evs) = run (step w ev) evs"
  by (simp add: run_def)

lemma run_append [simp]: "run w (xs @ ys) = run (run w xs) ys"
  by (simp add: run_def)

lemma split_str_nonempty: "split_str sep s \<noteq> []"
  by (induction s) (auto split: list.splits)

lemmas handler_defs =
  emit_def setState_def setState_or_drop_def onDataLoaded_def stage1_then_def stage1_catch_def stage2_then_def
  stage2_catch_def componentDidMount_def componentWillUnmount_def onLogDataUpdate_def
  onSearch_def onOrderChange_def onScaleSliderChange_def onLayoutSelectorChange_def
  onExtremeChange_def render_def requestReplay_def push_def Let_def

lemma load_view_onLogDataUpdate: "load_view ((onLogDataUpdate s ^^ n) w) = load_view w"
  by (induction n) (simp_all add: load_view_def handler_defs)

lemma step_quiet: "\<not> triggers (load w) ev \<Longrightarrow> load_view (step w ev) = load_view w"
proof (cases ev)
  case IpcDeliver
  then show ?thesis
    by (cases "ipcQueue (channel w)") (simp_all add: load_view_onLogDataUpdate, simp add: load_view_def)
qed (cases "load w"; simp add: load_view_def handler_defs)+

lemma run_quiet:
  "\<forall>ev\<in>set evs. \<not> triggers (load w) ev \<Longrightarrow> load_view (run w evs) = load_view w"
proof (induction evs arbitrary: w)
  case Nil
  show ?case by simp
next
  case (Cons ev evs)
  have a: "load_view (step w ev) = load_view w"
    using Cons.prems by (simp add: step_quiet)
  then have "load (step w ev) = load w"
    by (simp add: load_view_def)
  with Cons show ?case using a by simp
qed

lemma count_list_filter: "P x \<Longrightarrow> count_list (filter P xs) x = count_list xs x"
  by (induction xs) auto

lemma set_filter_load: "load_effect e \<Longrightarrow> e \<in> set (filter load_effect xs) \<longleftrightarrow> e \<in> set xs"
  by simp

lemma load_view_constructor:
  "load_view (constructor cfg prefs) =
     (Stage1_pending, None, cfg, cfg, 0,
      [0 \<mapsto> new_GameImageCollection (config_flashpointPath cfg)],
      [FetchPlatformFilenames (config_flashpointPath cfg)])"
  by (simp add: load_view_def constructor_def)

lemma load_view_stage1_reject:
  "load_view w = (Stage1_pending, c, cfg, ccfg, r, h, es) \<Longrightarrow>
   load_view (step w (Stage1Settled (Inl e))) =
     (Settled,
      (if lifecycle w = Unmounted then c
       else Some \<lparr>collection = \<lparr>games = []\<rparr>, flashpointPath = config_flashpointPath cfg,
              gameImages = r\<rparr>),
      cfg, ccfg, r, h, es @ [ConsoleError e, OnDataLoaded, SetState F_central])"
  by (simp add: load_view_def handler_defs)

lemma load_view_stage1_resolve:
  "load_view w = (Stage1_pending, c, cfg, ccfg, r, h, es) \<Longrightarrow>
   load_view (step w (Stage1Settled (Inr names))) =
     (Stage2_pending, c, cfg, ccfg, r,
      h(r := map_option (addPlatforms (map platform_name names)) (h r)),
      es @ [AddPlatforms (map platform_name names),
            FetchPlatforms (config_flashpointPath ccfg) names])"
  by (simp add: load_view_def handler_defs)

lemma load_view_stage2_reject:
  "load_view w = (Stage2_pending, c, cfg, ccfg, r, h, es) \<Longrightarrow>
   load_view (step w (Stage2Settled (Inl e))) =
     (Settled,
      (if lifecycle w = Unmounted then c
       else Some \<lparr>collection = \<lparr>games = []\<rparr>, flashpointPath = config_flashpointPath cfg,
              gameImages = r\<rparr>),
      cfg, ccfg, r, h, es @ [ConsoleError e, OnDataLoaded, SetState F_central])"
  by (simp add: load_view_def handler_defs)

lemma load_view_stage2_resolve:
  "load_view w = (Stage2_pending, c, cfg, ccfg, r, h, es) \<Longrightarrow>
   load_view (step w (Stage2Settled (Inr col))) =
     (Settled,
      (if lifecycle w = Unmounted then c
       else Some \<lparr>collection = col, flashpointPath = config_flashpointPath cfg, gameImages = r\<rparr>),
      cfg, ccfg, r, h, es @ [OnDataLoaded, SetState F_central])"
  by (simp add: load_view_def handler_defs)

lemma run_before_stage1:
  assumes "\<forall>r. Stage1Settled r \<notin> set evs" and "load w = Stage1_pending"
  shows "load_view (run w evs) = load_view w"
proof (rule run_quiet, rule ballI)
  fix ev assume "ev \<in> set evs"
  with assms show "\<not> triggers (load w) ev" by (cases ev) auto
qed

lemma run_before_stage2:
  assumes "\<forall>r. Stage2Settled r \<notin> set evs" and "load w = Stage2_pending"
  shows "load_view (run w evs) = load_view w"
proof (rule run_quiet, rule ballI)
  fix ev assume "ev \<in> set evs"
  with assms show "\<not> triggers (load w) ev" by (cases ev) auto
qed

lemma run_after_settled:
  assumes "load w = Settled"
  shows "load_view (run w evs) = load_view w"
  using assms by (intro run_quiet) simp

text \<open>The three complete runs of the load chain, seen through \<open>load_view\<close>.\<close>

lemma view_stage1_fails:
  assumes "\<forall>r. Stage1Settled r \<notin> set pre"
  shows "load_view (run (constructor cfg prefs) (pre @ Stage1Settled (Inl e) # post)) =
     (Settled,
      (if lifecycle (run (constructor cfg prefs) pre) = Unmounted then None
       else Some \<lparr>collection = \<lparr>games = []\<rparr>, flashpointPath = config_flashpointPath cfg,
              gameImages = 0\<rparr>),
      cfg, cfg, 0, [0 \<mapsto> new_GameImageCollection (config_flashpointPath cfg)],
      [FetchPlatformFilenames (config_flashpointPath cfg), ConsoleError e, OnDataLoaded,
       SetState F_central])"
proof -
  let ?w0 = "constructor cfg prefs :: ('a, 'b, 'c, 'd) App"
  have 0: "load ?w0 = Stage1_pending" by (simp add: constructor_def)
  have 1: "load_view (run ?w0 pre) = load_view ?w0"
    using assms 0 by (rule run_before_stage1)
  have 2: "load_view (step (run ?w0 pre) (Stage1Settled (Inl e))) = 
     (Settled,
      (if lifecycle (run ?w0 pre) = Unmounted then None
       else Some \<lparr>collection = \<lparr>games = []\<rparr>, flashpointPath = config_flashpointPath cfg,
              gameImages = 0\<rparr>),
      cfg, cfg, 0, [0 \<mapsto> new_GameImageCollection (config_flashpointPath cfg)],
      [FetchPlatformFilenames (config_flashpointPath cfg)] @ [ConsoleError e, OnDataLoaded,
       SetState F_central])"
    using 1 by (intro load_view_stage1_reject) (simp add: load_view_constructor)
  then have "load (step (run ?w0 pre) (Stage1Settled (Inl e))) = Settled"
    by (simp add: load_view_def)
  then show ?thesis
    using 2 by (simp add: run_after_settled)
qed

lemma view_stage1_resolves:
  assumes "\<forall>r. Stage1Settled r \<notin> set pre" and "\<forall>r. Stage2Settled r \<notin> set mid"
  shows "load_view (run (constructor cfg prefs) (pre @ Stage1Settled (Inr names) # mid)) =
     (Stage2_pending, None, cfg, cfg, 0,
      [0 \<mapsto> addPlatforms (map platform_name names)
         (new_GameImageCollection (config_flashpointPath cfg))],
      [FetchPlatformFilenames (config_flashpointPath cfg), AddPlatforms (map platform_name names),
       FetchPlatforms (config_flashpointPath cfg) names])"
proof -
  let ?w0 = "constructor cfg prefs :: ('a, 'b, 'c, 'd) App"
  have 0: "load ?w0 = Stage1_pending" by (simp add: constructor_def)
  have 1: "load_view (run ?w0 pre) = load_view ?w0"
    using assms(1) 0 by (rule run_before_stage1)
  have 2: "load_view (step (run ?w0 pre) (Stage1Settled (Inr names))) = 
     (Stage2_pending, None, cfg, cfg, 0,
      [0 \<mapsto> new_GameImageCollection (config_flashpointPath cfg)](0 :=
         map_option (addPlatforms (map platform_name names))
           ([0 \<mapsto> new_GameImageCollection (config_flashpointPath cfg)] 0)),
      [FetchPlatformFilenames (config_flashpointPath cfg)] @
      [AddPlatforms (map platform_name names), FetchPlatforms (config_flashpointPath cfg) names])"
    using 1 load_view_stage1_resolve [of "run ?w0 pre" None cfg cfg 0
        "[0 \<mapsto> new_GameImageCollection (config_flashpointPath cfg)]"
        "[FetchPlatformFilenames (config_flashpointPath cfg)]" names]
    by (simp add: load_view_constructor)
  then have "load (step (run ?w0 pre) (Stage1Settled (Inr names))) = Stage2_pending"
    by (simp add: load_view_def)
  with assms(2) show ?thesis
    using 2 by (simp add: run_before_stage2)
qed

lemma view_stage2_fails:
  assumes "\<forall>r. Stage1Settled r \<notin> set pre" and "\<forall>r. Stage2Settled r \<notin> set mid"
  shows "load_view (run (constructor cfg prefs)
           (pre @ Stage1Settled (Inr names) # mid @ Stage2Settled (Inl e) # post)) =
     (Settled,
      (if lifecycle (run (constructor cfg prefs) (pre @ Stage1Settled (Inr names) # mid)) = Unmounted then None
       else Some \<lparr>collection = \<lparr>games = []\<rparr>, flashpointPath = config_flashpointPath cfg,
              gameImages = 0\<rparr>),
      cfg, cfg, 0,
      [0 \<mapsto> addPlatforms (map platform_name names)
         (new_GameImageCollection (config_flashpointPath cfg))],
      [FetchPlatformFilenames (config_flashpointPath cfg), AddPlatforms (map platform_name names),
       FetchPlatforms (config_flashpointPath cfg) names, ConsoleError e, OnDataLoaded,
       SetState F_central])"
proof -
  let ?w1 = "run (constructor cfg prefs :: ('a, 'b, 'c, 'd) App) (pre @ Stage1Settled (Inr names) # mid)"
  note 1 = view_stage1_resolves [OF assms, of cfg prefs names]
  have 2: "load_view (step ?w1 (Stage2Settled (Inl e))) =
     (Settled,
      (if lifecycle ?w1 = Unmounted then None
       else Some \<lparr>collection = \<lparr>games = []\<rparr>, flashpointPath = config_flashpointPath cfg,
              gameImages = 0\<rparr>),
      cfg, cfg, 0,
      [0 \<mapsto> addPlatforms (map platform_name names)
         (new_GameImageCollection (config_flashpointPath cfg))],
      [FetchPlatformFilenames (config_flashpointPath cfg), AddPlatforms (map platform_name names),
       FetchPlatforms (config_flashpointPath cfg) names] @ [ConsoleError e, OnDataLoaded,
       SetState F_central])"
    by (intro load_view_stage2_reject) (rule 1)
  then have "load (step ?w1 (Stage2Settled (Inl e))) = Settled"
    by (simp add: load_view_def)
  then have "load_view (run (step ?w1 (Stage2Settled (Inl e))) post) =
     load_view (step ?w1 (Stage2Settled (Inl e)))"
    by (rule run_after_settled)
  moreover have "run (constructor cfg prefs)
           (pre @ Stage1Settled (Inr names) # mid @ Stage2Settled (Inl e) # post) =
       run (step ?w1 (Stage2Settled (Inl e))) post"
    by simp
  ultimately show ?thesis using 2 by simp
qed

lemma view_stage2_resolves:
  assumes "\<forall>r. Stage1Settled r \<notin> set pre" and "\<forall>r. Stage2Settled r \<notin> set mid"
  shows "load_view (run (constructor cfg prefs)
           (pre @ Stage1Settled (Inr names) # mid @ Stage2Settled (Inr col) # post)) =
     (Settled,
      (if lifecycle (run (constructor cfg prefs) (pre @ Stage1Settled (Inr names) # mid)) = Unmounted then None
       else Some \<lparr>collection = col, flashpointPath = config_flashpointPath cfg,
              gameImages = 0\<rparr>),
      cfg, cfg, 0,
      [0 \<mapsto> addPlatforms (map platform_name names)
         (new_GameImageCollection (config_flashpointPath cfg))],
      [FetchPlatformFilenames (config_flashpointPath cfg), AddPlatforms (map platform_name names),
       FetchPlatforms (config_flashpointPath cfg) names, OnDataLoaded, SetState F_central])"
proof -
  let ?w1 = "run (constructor cfg prefs :: ('a, 'b, 'c, 'd) App) (pre @ Stage1Settled (Inr names) # mid)"
  note 1 = view_stage1_resolves [OF assms, of cfg prefs names]
  have 2: "load_view (step ?w1 (Stage2Settled (Inr col))) =
     (Settled,
      (if lifecycle ?w1 = Unmounted then None
       else Some \<lparr>collection = col, flashpointPath = config_flashpointPath cfg,
              gameImages = 0\<rparr>),
      cfg, cfg, 0,
      [0 \<mapsto> addPlatforms (map platform_name names)
         (new_GameImageCollection (config_flashpointPath cfg))],
      [FetchPlatformFilenames (config_flashpointPath cfg), AddPlatforms (map platform_name names),
       FetchPlatforms (config_flashpointPath cfg) names] @ [OnDataLoaded, SetState F_central])"
    by (intro load_view_stage2_resolve) (rule 1)
  then have "load (step ?w1 (Stage2Settled (Inr col))) = Settled"
    by (simp add: load_view_def)
  then have "load_view (run (step ?w1 (Stage2Settled (Inr col))) post) =
     load_view (step ?w1 (Stage2Settled (Inr col)))"
    by (rule run_after_settled)
  moreover have "run (constructor cfg prefs)
           (pre @ Stage1Settled (Inr names) # mid @ Stage2Settled (Inr col) # post) =
       run (step ?w1 (Stage2Settled (Inr col))) post"
    by simp
  ultimately show ?thesis using 2 by simp
qed

lemma register_set: "set (register ps ns) = set ps \<union> set ns"
  by (induction ns arbitrary: ps) auto

lemma view_central: "load_view w = (ph, c, rest) \<Longrightarrow> central (state w) = c"
  by (simp add: load_view_def)

lemma view_heap: "load_view w = (ph, c, cfg, ccfg, r, h, es) \<Longrightarrow> heap w = h"
  by (simp add: load_view_def)

lemma view_load: "load_view w = (ph, rest) \<Longrightarrow> load w = ph"
  by (simp add: load_view_def)

lemma view_count:
  "load_view w = (ph, c, cfg, ccfg, r, h, es) \<Longrightarrow> load_effect e \<Longrightarrow>
   count_list (effects w) e = count_list es e"
  by (auto simp: load_view_def count_list_filter)


lemma platform_name_registered:
  "n \<in> set names \<Longrightarrow>
   platform_name n \<in> set (platforms (addPlatforms (map platform_name names) gi))"
  by (simp add: addPlatforms_def register_set)


lemma central_after_stage1_resolved:
  assumes pre: "\<forall>r. Stage1Settled r \<notin> set pre"
  shows "load_view (run (constructor cfg prefs) (pre @ Stage1Settled (Inr names) # post)) =
           (ph, Some c, rest) \<Longrightarrow>
         gameImages c = 0 \<and>
         heap (run (constructor cfg prefs) (pre @ Stage1Settled (Inr names) # post)) =
           [0 \<mapsto> addPlatforms (map platform_name names)
              (new_GameImageCollection (config_flashpointPath cfg))]"
proof -
  let ?w = "run (constructor cfg prefs :: ('a, 'b, 'c, 'd) App)
              (pre @ Stage1Settled (Inr names) # post)"
  assume v: "load_view ?w = (ph, Some c, rest)"
  then have cc: "central (state ?w) = Some c"
    by (simp add: load_view_def del: run_Cons run_append run_Nil)
  show ?thesis
  proof (cases "\<exists>ev\<in>set post. \<exists>r. ev = Stage2Settled r")
    case False
    then have "\<forall>r. Stage2Settled r \<notin> set post" by blast
    from view_central [OF view_stage1_resolves [OF pre this, of cfg prefs names]] cc
    show ?thesis
      by (simp del: run_Cons run_append run_Nil)
  next
    case True
    then obtain mid ev post' where post: "post = mid @ ev # post'"
      and ev: "\<exists>r. ev = Stage2Settled r"
      and mid: "\<forall>y\<in>set mid. \<not> (\<exists>r. y = Stage2Settled r)"
      using split_list_first_prop [of post "\<lambda>ev. \<exists>r. ev = Stage2Settled r"] by blast
    from mid have mid': "\<forall>r. Stage2Settled r \<notin> set mid" by blast
    from ev obtain r where r: "ev = Stage2Settled r" by blast
    show ?thesis
    proof (cases r)
      case (Inl e)
      note a = view_stage2_fails [OF pre mid', of cfg prefs names e post']
      from view_central [OF a] view_heap [OF a] cc
      show ?thesis
        unfolding post r Inl
        by (auto split: if_splits simp del: run_Cons run_append run_Nil)
    next
      case (Inr col)
      note a = view_stage2_resolves [OF pre mid', of cfg prefs names col post']
      from view_central [OF a] view_heap [OF a] cc
      show ?thesis
        unfolding post r Inr
        by (auto split: if_splits simp del: run_Cons run_append run_Nil)
    qed
  qed
qed

lemma onLogDataUpdate_funpow:
  "(onLogDataUpdate s ^^ n) w =
     w\<lparr>state := (state w)\<lparr>logData := (if n = 0 then logData (state w) else s)\<rparr>,
       effects := effects w @ replicate n (SetState F_logData)\<rparr>"
proof (induction n)
  case 0
  show ?case by simp
next
  case (Suc n)
  have "(onLogDataUpdate s ^^ Suc n) w = onLogDataUpdate s ((onLogDataUpdate s ^^ n) w)"
    by simp
  also have "\<dots> = onLogDataUpdate s
     (w\<lparr>state := (state w)\<lparr>logData := (if n = 0 then logData (state w) else s)\<rparr>,
       effects := effects w @ replicate n (SetState F_logData)\<rparr>)"
    by (simp only: Suc)
  also have "\<dots> = w\<lparr>state := (state w)\<lparr>logData := (if Suc n = 0 then logData (state w) else s)\<rparr>,
       effects := effects w @ replicate (Suc n) (SetState F_logData)\<rparr>"
    by (simp add: onLogDataUpdate_def setState_def emit_def replicate_append_same)
  finally show ?case .
qed

lemma step_preferences_data:
  "preferences_data (step w ev) =
     (case ev of
        ScaleSlider v \<Rightarrow> (preferences_data w)\<lparr>browsePageGameScale := v\<rparr>
      | LayoutSelector v \<Rightarrow> (preferences_data w)\<lparr>browsePageLayout := v\<rparr>
      | ExtremeToggle b \<Rightarrow> (preferences_data w)\<lparr>browsePageShowExtreme := b\<rparr>
      | _ \<Rightarrow> preferences_data w)"
  by (cases ev)
    (simp_all add: handler_defs onLogDataUpdate_funpow split: sum.split list.split)

lemma step_gameScale:
  "gameScale (state (step w ev)) =
     (case ev of ScaleSlider v \<Rightarrow> v | _ \<Rightarrow> gameScale (state w))"
  by (cases ev)
    (simp_all add: handler_defs onLogDataUpdate_funpow split: sum.split list.split)

lemma step_gameLayout:
  "gameLayout (state (step w ev)) =
     (case ev of LayoutSelector v \<Rightarrow> v | _ \<Rightarrow> gameLayout (state w))"
  by (cases ev)
    (simp_all add: handler_defs onLogDataUpdate_funpow split: sum.split list.split)

lemma step_showExtreme:
  "showExtreme (state (step w ev)) =
     (case ev of ExtremeToggle b \<Rightarrow> b | _ \<Rightarrow> showExtreme (state w))"
  by (cases ev)
    (simp_all add: handler_defs onLogDataUpdate_funpow split: sum.split list.split)

lemma in_sync_step: "in_sync w \<Longrightarrow> in_sync (step w ev)"
  unfolding in_sync_def step_preferences_data step_gameScale step_gameLayout step_showExtreme
  by (cases ev) simp_all

lemma in_sync_run: "in_sync w \<Longrightarrow> in_sync (run w evs)"
  by (induction evs arbitrary: w) (simp_all add: in_sync_step)

lemma in_sync_constructor: "in_sync (constructor cfg prefs)"
  by (simp add: in_sync_def constructor_def)

lemma scale_kept:
  "\<forall>v. ScaleSlider v \<notin> set evs \<Longrightarrow>
   browsePageGameScale (preferences_data (run w evs)) = browsePageGameScale (preferences_data w)"
proof (induction evs arbitrary: w)
  case Nil
  show ?case by simp
next
  case (Cons ev evs)
  then have "browsePageGameScale (preferences_data (step w ev)) =
      browsePageGameScale (preferences_data w)"
    by (auto simp add: step_preferences_data split: event.split)
  with Cons show ?case by simp
qed

lemma layout_kept:
  "\<forall>v. LayoutSelector v \<notin> set evs \<Longrightarrow>
   browsePageLayout (preferences_data (run w evs)) = browsePageLayout (preferences_data w)"
proof (induction evs arbitrary: w)
  case Nil
  show ?case by simp
next
  case (Cons ev evs)
  then have "browsePageLayout (preferences_data (step w ev)) =
      browsePageLayout (preferences_data w)"
    by (auto simp add: step_preferences_data split: event.split)
  with Cons show ?case by simp
qed

lemma extreme_kept:
  "\<forall>b. ExtremeToggle b \<notin> set evs \<Longrightarrow>
   browsePageShowExtreme (preferences_data (run w evs)) =
   browsePageShowExtreme (preferences_data w)"
proof (induction evs arbitrary: w)
  case Nil
  show ?case by simp
next
  case (Cons ev evs)
  then have "browsePageShowExtreme (preferences_data (step w ev)) =
      browsePageShowExtreme (preferences_data w)"
    by (auto simp add: step_preferences_data split: event.split)
  with Cons show ?case by simp
qed

lemma count_list_replicate:
  "count_list (replicate n y) x = (if x = y then n else 0)"
  by (induction n) auto

lemma step_onSearch_flag:
  "onSearch_flag (step w ev) =
     (case ev of Search s \<Rightarrow> True | Render \<Rightarrow> False | _ \<Rightarrow> onSearch_flag w)"
  by (cases ev)
    (simp_all add: handler_defs onLogDataUpdate_funpow split: sum.split list.split)

lemma step_redirects:
  "count_list (effects (step w ev)) RedirectBrowse =
     (case ev of
        Render \<Rightarrow> count_list (effects w) RedirectBrowse + (if onSearch_flag w then 1 else 0)
      | _ \<Rightarrow> count_list (effects w) RedirectBrowse)"
  by (cases ev)
    (simp_all add: handler_defs onLogDataUpdate_funpow count_list_replicate
      split: sum.split list.split)

lemma run_disarmed:
  "\<forall>s. Search s \<notin> set evs \<Longrightarrow> \<not> onSearch_flag w \<Longrightarrow>
   \<not> onSearch_flag (run w evs) \<and>
   count_list (effects (run w evs)) RedirectBrowse = count_list (effects w) RedirectBrowse"
proof (induction evs arbitrary: w)
  case Nil
  then show ?case by simp
next
  case (Cons ev evs)
  then have "\<not> onSearch_flag (step w ev)"
    and "count_list (effects (step w ev)) RedirectBrowse = count_list (effects w) RedirectBrowse"
    by (auto simp add: step_onSearch_flag step_redirects split: event.split)
  with Cons.IH [of "step w ev"] Cons.prems show ?case by simp
qed

lemma run_armed:
  "\<forall>s. Search s \<notin> set evs \<Longrightarrow> Render \<notin> set evs \<Longrightarrow>
   onSearch_flag (run w evs) = onSearch_flag w \<and>
   count_list (effects (run w evs)) RedirectBrowse = count_list (effects w) RedirectBrowse"
proof (induction evs arbitrary: w)
  case Nil
  then show ?case by simp
next
  case (Cons ev evs)
  then have "onSearch_flag (step w ev) = onSearch_flag w"
    and "count_list (effects (step w ev)) RedirectBrowse = count_list (effects w) RedirectBrowse"
    by (auto simp add: step_onSearch_flag step_redirects split: event.split)
  with Cons.IH [of "step w ev"] Cons.prems show ?case by simp
qed







lemma step_logData:
  "logData (state (step w ev)) =
     (case ev of
        IpcDeliver \<Rightarrow> (case ipcQueue (channel w) of
                         [] \<Rightarrow> logData (state w)
                       | fullLog # rest \<Rightarrow> if listeners w = 0 then logData (state w) else fullLog)
      | _ \<Rightarrow> logData (state w))"
  by (cases ev)
    (simp_all add: handler_defs onLogDataUpdate_funpow split: sum.split list.split)



lemma step_ipcQueue_deliver:
  "ipcQueue (channel (step w IpcDeliver)) = tl (ipcQueue (channel w)) \<and> listeners (step w IpcDeliver) = listeners w"
  by (simp add: onLogDataUpdate_funpow split: list.split)

lemma deliver_all:
  "0 < listeners w \<Longrightarrow> ipcQueue (channel w) = snaps @ [s] \<Longrightarrow>
   logData (state (run w (replicate (Suc (length snaps)) IpcDeliver))) = s"
proof (induction snaps arbitrary: w)
  case Nil
  then show ?case
    using step_logData [of w IpcDeliver] by (simp del: step.simps)
next
  case (Cons a snaps)
  then have "0 < listeners (step w IpcDeliver)" and "ipcQueue (channel (step w IpcDeliver)) = snaps @ [s]"
    using step_ipcQueue_deliver [of w] by (simp_all del: step.simps)
  from Cons.IH [OF this] show ?case by simp
qed








section \<open>The claims\<close>







text \<open>
  Claim C6. \<^verbatim>\<open>onDataLoaded\<close> is called exactly once per settlement of the load chain:
  no call before stage 1 settles nor while stage 2 is pending, and exactly one call in
  every run that has settled, by a rejected stage 1, a rejected stage 2 or a resolved
  stage 2, whatever events come later (among them settlements that no promise waits for).
\<close>

theorem C6_onDataLoaded_once_per_settlement:
  assumes "\<forall>r. Stage1Settled r \<notin> set pre" and "\<forall>r. Stage2Settled r \<notin> set mid"
  shows "count_list (effects (run (constructor cfg prefs) pre)) OnDataLoaded = 0 \<and>
         count_list (effects (run (constructor cfg prefs)
            (pre @ Stage1Settled (Inr names) # mid))) OnDataLoaded = 0 \<and>
         count_list (effects (run (constructor cfg prefs)
            (pre @ Stage1Settled (Inl e) # post))) OnDataLoaded = 1 \<and>
         count_list (effects (run (constructor cfg prefs)
            (pre @ Stage1Settled (Inr names) # mid @ Stage2Settled (Inl e) # post))) OnDataLoaded = 1 \<and>
         count_list (effects (run (constructor cfg prefs)
            (pre @ Stage1Settled (Inr names) # mid @ Stage2Settled (Inr col) # post))) OnDataLoaded = 1"
proof -
  let ?w0 = "constructor cfg prefs :: ('a, 'b, 'c, 'd) App"
  have "load ?w0 = Stage1_pending"
    by (simp add: constructor_def)
  with assms(1) have "load_view (run ?w0 pre) = load_view ?w0"
    by (rule run_before_stage1)
  then have a: "count_list (effects (run ?w0 pre)) OnDataLoaded = 0"
    using view_count [of "run ?w0 pre" _ _ _ _ _ _ _ OnDataLoaded]
    by (simp add: load_view_constructor)
  have b: "count_list (effects (run ?w0 (pre @ Stage1Settled (Inr names) # mid))) OnDataLoaded = 0"
    using view_count [OF view_stage1_resolves [OF assms, of cfg prefs names], of OnDataLoaded]
    by simp
  have c: "count_list (effects (run ?w0 (pre @ Stage1Settled (Inl e) # post))) OnDataLoaded = 1"
    using view_count [OF view_stage1_fails [OF assms(1), of cfg prefs e post], of OnDataLoaded]
    by simp
  have d: "count_list (effects (run ?w0
            (pre @ Stage1Settled (Inr names) # mid @ Stage2Settled (Inl e) # post))) OnDataLoaded = 1"
    using view_count [OF view_stage2_fails [OF assms, of cfg prefs names e post], of OnDataLoaded]
    by simp
  have e: "count_list (effects (run ?w0
            (pre @ Stage1Settled (Inr names) # mid @ Stage2Settled (Inr col) # post))) OnDataLoaded = 1"
    using view_count [OF view_stage2_resolves [OF assms, of cfg prefs names col post], of OnDataLoaded]
    by simp
  from a b c d e show ?thesis by blast
qed

theorem C6_witness:
  "(\<forall>r. Stage1Settled r \<notin> set [Mount, Render :: (nat, string, string, nat) event]) \<and>
   (\<forall>r. Stage2Settled r \<notin> set [Search ''mario'' :: (nat, string, string, nat) event]) \<and>
   count_list (effects (run app_example [Mount, Render])) OnDataLoaded = 0 \<and>
   count_list (effects (run app_example
      ([Mount, Render] @ Stage1Settled (Inr [''Flash.xml'']) # [Search ''mario'']))) OnDataLoaded = 0 \<and>
   count_list (effects (run app_example
      ([Mount, Render] @ Stage1Settled (Inl ''ENOENT'') #
       [Stage1Settled (Inl ''again''), Stage2Settled (Inl ''late'')]))) OnDataLoaded = 1 \<and>
   count_list (effects (run app_example
      ([Mount, Render] @ Stage1Settled (Inr [''Flash.xml'']) # [Search ''mario''] @
       Stage2Settled (Inl ''ENOENT'') #
       [Stage1Settled (Inl ''again''), Stage2Settled (Inl ''late'')]))) OnDataLoaded = 1 \<and>
   count_list (effects (run app_example
      ([Mount, Render] @ Stage1Settled (Inr [''Flash.xml'']) # [Search ''mario''] @
       Stage2Settled (Inr \<lparr>games = [1, 2, 3]\<rparr>) #
       [Stage1Settled (Inl ''again''), Stage2Settled (Inl ''late'')]))) OnDataLoaded = 1"
  using C6_onDataLoaded_once_per_settlement [of "[Mount, Render]" "[Search ''mario'']"
      config_example preferences_example "[''Flash.xml'']" "''ENOENT''"
      "[Stage1Settled (Inl ''again''), Stage2Settled (Inl ''late'')]" "\<lparr>games = [1, 2, 3::nat]\<rparr>"]
  by (simp add: app_example_def del: run_Cons run_append run_Nil)




text \<open>
  Claim C2. Before stage 1 settles \<^verbatim>\<open>state.central\<close> is undefined. After stage 1 has
  resolved the names \<open>names\<close>, in the state reached by any further events \<open>post\<close>:
  whenever \<^verbatim>\<open>state.central\<close> is defined, its image index has every platform name of
  \<open>names\<close> registered. So no state that can be observed has a central state whose
  collection was loaded from a platform that the image index lacks.
\<close>

theorem C2_platforms_registered_before_central_visible:
  assumes "\<forall>r. Stage1Settled r \<notin> set pre"
  shows "central (state (run (constructor cfg prefs) pre)) = None \<and>
         (\<forall>c. central (state (run (constructor cfg prefs)
                  (pre @ Stage1Settled (Inr names) # post))) = Some c \<longrightarrow>
            (\<exists>gi. heap (run (constructor cfg prefs) (pre @ Stage1Settled (Inr names) # post))
                     (gameImages c) = Some gi \<and>
                   (\<forall>n\<in>set names. platform_name n \<in> set (platforms gi))))"
proof (intro conjI allI impI)
  let ?w0 = "constructor cfg prefs :: ('a, 'b, 'c, 'd) App"
  have "load ?w0 = Stage1_pending"
    by (simp add: constructor_def)
  with assms have "load_view (run ?w0 pre) = load_view ?w0"
    by (rule run_before_stage1)
  then show "central (state (run ?w0 pre)) = None"
    using view_central [of "run ?w0 pre"] by (simp add: load_view_constructor)
next
  fix c
  let ?w = "run (constructor cfg prefs :: ('a, 'b, 'c, 'd) App)
              (pre @ Stage1Settled (Inr names) # post)"
  assume "central (state ?w) = Some c"
  then have "load_view ?w = (load ?w, Some c, config (state ?w), cl_config ?w, cl_gameImages ?w,
      heap ?w, filter load_effect (effects ?w))"
    by (simp add: load_view_def)
  from central_after_stage1_resolved [OF assms this]
  have "heap ?w (gameImages c) = Some (addPlatforms (map platform_name names)
          (new_GameImageCollection (config_flashpointPath cfg)))"
    by simp
  then show "\<exists>gi. heap ?w (gameImages c) = Some gi \<and>
                  (\<forall>n\<in>set names. platform_name n \<in> set (platforms gi))"
    by (simp add: platform_name_registered)
qed

theorem C2_witness:
  "(\<forall>r. Stage1Settled r \<notin> set [Mount, Render :: (nat, string, string, nat) event]) \<and>
   central (state (run app_example [Mount, Render])) = None \<and>
   (\<exists>c gi. central (state (run app_example
               ([Mount, Render] @ Stage1Settled (Inr [''Flash.xml'', ''Shockwave.Games.xml'']) #
                [Stage2Settled (Inr \<lparr>games = [1, 2, 3]\<rparr>), Render]))) = Some c \<and>
            heap (run app_example
               ([Mount, Render] @ Stage1Settled (Inr [''Flash.xml'', ''Shockwave.Games.xml'']) #
                [Stage2Settled (Inr \<lparr>games = [1, 2, 3]\<rparr>), Render])) (gameImages c) = Some gi \<and>
            platform_name ''Flash.xml'' \<in> set (platforms gi) \<and>
            platform_name ''Shockwave.Games.xml'' \<in> set (platforms gi) \<and>
            platforms gi = [''Flash'', ''Shockwave''])"
proof -
  let ?evs = "[Mount, Render] @ Stage1Settled (Inr [''Flash.xml'', ''Shockwave.Games.xml'']) #
     [Stage2Settled (Inr \<lparr>games = [1, 2, 3]\<rparr>), Render :: (nat, string, string, nat) event]"
  have h: "\<forall>r. Stage1Settled r \<notin> set [Mount, Render :: (nat, string, string, nat) event]"
    by simp
  note inst = C2_platforms_registered_before_central_visible [OF h, of config_example
      preferences_example "[''Flash.xml'', ''Shockwave.Games.xml'']"
      "[Stage2Settled (Inr \<lparr>games = [1, 2, 3]\<rparr>), Render]"]
  have c: "central (state (run app_example ?evs)) =
      Some \<lparr>collection = \<lparr>games = [1, 2, 3]\<rparr>, flashpointPath = ''C:/Flashpoint'', gameImages = 0\<rparr>"
    by (simp add: app_example_def config_example_def preferences_example_def constructor_def
        handler_defs)
  have g: "heap (run app_example ?evs) 0 =
      Some \<lparr>index_flashpointPath = ''C:/Flashpoint'', platforms = [''Flash'', ''Shockwave'']\<rparr>"
    by (simp add: app_example_def config_example_def preferences_example_def constructor_def
        handler_defs new_GameImageCollection_def addPlatforms_def platform_name_def)
  from inst c g h show ?thesis
    by (simp add: app_example_def del: run_Cons run_append run_Nil)
qed

text \<open>
  Claim C4. Each preference setter calls \<^verbatim>\<open>setState\<close> first and writes the preferences
  second, in the same call, and both hold the value set. In any run, after a setter event
  the persisted value of its field is the value set until the next setter event of that
  field, whatever other events come before (\<open>pre\<close>) and after (\<open>post\<close>). In every
  state a component reaches from its construction, the in-memory copies of the three
  preferences equal the persisted ones. The witness has the spec's scenario C: setting
  the scale to 1.5.
\<close>

theorem C4_preferences_write_through:
  fixes u w :: "('g, 's, 'o, 'l) App" and evs :: "('g, 's, 'o, 'l) event list"
  assumes "\<forall>v'. ScaleSlider v' \<notin> set post1"
    and "\<forall>l'. LayoutSelector l' \<notin> set post2"
    and "\<forall>b'. ExtremeToggle b' \<notin> set post3"
  shows "effects (onScaleSliderChange v u) =
           effects u @ [SetState F_gameScale, PrefWrite P_browsePageGameScale] \<and>
         gameScale (state (onScaleSliderChange v u)) = v \<and>
         browsePageGameScale (preferences_data (onScaleSliderChange v u)) = v \<and>
         effects (onLayoutSelectorChange l u) =
           effects u @ [SetState F_gameLayout, PrefWrite P_browsePageLayout] \<and>
         gameLayout (state (onLayoutSelectorChange l u)) = l \<and>
         browsePageLayout (preferences_data (onLayoutSelectorChange l u)) = l \<and>
         effects (onExtremeChange b u) =
           effects u @ [SetState F_showExtreme, PrefWrite P_browsePageShowExtreme] \<and>
         showExtreme (state (onExtremeChange b u)) = b \<and>
         browsePageShowExtreme (preferences_data (onExtremeChange b u)) = b \<and>
         browsePageGameScale (preferences_data (run w (pre1 @ ScaleSlider v # post1))) = v \<and>
         browsePageLayout (preferences_data (run w (pre2 @ LayoutSelector l # post2))) = l \<and>
         browsePageShowExtreme (preferences_data (run w (pre3 @ ExtremeToggle b # post3))) = b \<and>
         gameScale (state (run (constructor cfg prefs) evs)) =
           browsePageGameScale (preferences_data (run (constructor cfg prefs) evs)) \<and>
         gameLayout (state (run (constructor cfg prefs) evs)) =
           browsePageLayout (preferences_data (run (constructor cfg prefs) evs)) \<and>
         showExtreme (state (run (constructor cfg prefs) evs)) =
           browsePageShowExtreme (preferences_data (run (constructor cfg prefs) evs))"
proof -
  have calls: "effects (onScaleSliderChange v u) =
           effects u @ [SetState F_gameScale, PrefWrite P_browsePageGameScale] \<and>
         gameScale (state (onScaleSliderChange v u)) = v \<and>
         browsePageGameScale (preferences_data (onScaleSliderChange v u)) = v \<and>
         effects (onLayoutSelectorChange l u) =
           effects u @ [SetState F_gameLayout, PrefWrite P_browsePageLayout] \<and>
         gameLayout (state (onLayoutSelectorChange l u)) = l \<and>
         browsePageLayout (preferences_data (onLayoutSelectorChange l u)) = l \<and>
         effects (onExtremeChange b u) =
           effects u @ [SetState F_showExtreme, PrefWrite P_browsePageShowExtreme] \<and>
         showExtreme (state (onExtremeChange b u)) = b \<and>
         browsePageShowExtreme (preferences_data (onExtremeChange b u)) = b"
    by (simp add: handler_defs)
  have s: "browsePageGameScale (preferences_data (run w (pre1 @ ScaleSlider v # post1))) = v"
    using scale_kept [OF assms(1)] by (simp add: handler_defs)
  have l: "browsePageLayout (preferences_data (run w (pre2 @ LayoutSelector l # post2))) = l"
    using layout_kept [OF assms(2)] by (simp add: handler_defs)
  have x: "browsePageShowExtreme (preferences_data (run w (pre3 @ ExtremeToggle b # post3))) = b"
    using extreme_kept [OF assms(3)] by (simp add: handler_defs)
  have "in_sync (run (constructor cfg prefs) evs)"
    by (intro in_sync_run in_sync_constructor)
  then show ?thesis
    using calls s l x unfolding in_sync_def by blast
qed

theorem C4_witness:
  "(\<forall>v'. ScaleSlider v' \<notin> set [Render, LayoutSelector 1 :: (nat, string, string, nat) event]) \<and>
   (\<forall>l'. LayoutSelector l' \<notin> set [Render, ScaleSlider 2 :: (nat, string, string, nat) event]) \<and>
   (\<forall>b'. ExtremeToggle b' \<notin> set [Render :: (nat, string, string, nat) event]) \<and>
   effects (onScaleSliderChange (3/2) app_example) =
     effects app_example @ [SetState F_gameScale, PrefWrite P_browsePageGameScale] \<and>
   gameScale (state (onScaleSliderChange (3/2) app_example)) = 3/2 \<and>
   browsePageGameScale (preferences_data (onScaleSliderChange (3/2) app_example)) = 3/2 \<and>
   browsePageGameScale (preferences_data (run app_example
     ([ScaleSlider 1, ScaleSlider 2] @ ScaleSlider (3/2) # [Render, LayoutSelector 1]))) = 3/2 \<and>
   browsePageLayout (preferences_data (run app_example
     ([LayoutSelector 0] @ LayoutSelector 1 # [Render, ScaleSlider 2]))) = 1 \<and>
   browsePageShowExtreme (preferences_data (run app_example
     ([ExtremeToggle False] @ ExtremeToggle True # [Render]))) = True \<and>
   gameScale (state (run app_example [ScaleSlider 1, Render, ScaleSlider 2])) =
     browsePageGameScale (preferences_data (run app_example [ScaleSlider 1, Render, ScaleSlider 2]))"
  using C4_preferences_write_through [where ?post1.0 = "[Render, LayoutSelector 1]"
      and ?post2.0 = "[Render, ScaleSlider 2]" and ?post3.0 = "[Render]" and v = "3/2"
      and u = app_example and l = 1 and b = True and w = app_example
      and ?pre1.0 = "[ScaleSlider 1, ScaleSlider 2]" and ?pre2.0 = "[LayoutSelector 0]"
      and ?pre3.0 = "[ExtremeToggle False]" and cfg = config_example
      and prefs = preferences_example and evs = "[ScaleSlider 1, Render, ScaleSlider 2]"]
  by (simp add: app_example_def del: run_Cons run_append run_Nil)

text \<open>
  Claim C5. After a search submission, no redirect is emitted before the next render pass
  (the events \<open>pre\<close> hold no render and no second submission); that render pass returns
  the redirect; however many render passes and other events follow (\<open>post\<close>, without a
  new submission), exactly one redirect has been emitted. A render pass leaves the flag
  cleared from any state \<open>u\<close>, and a second render pass right after it returns no
  redirect. From a state \<open>a\<close> with the flag cleared, events other than a search
  submission leave it cleared and emit no redirect.
\<close>

theorem C5_search_redirects_once:
  fixes w u a :: "('g, 's, 'o, 'l) App"
  assumes "\<forall>s'. Search s' \<notin> set pre" and "Render \<notin> set pre"
    and "\<forall>s'. Search s' \<notin> set post"
    and "\<not> onSearch_flag a" and "\<forall>s'. Search s' \<notin> set evs"
  shows "count_list (effects (run w (Search s # pre))) RedirectBrowse =
           count_list (effects w) RedirectBrowse \<and>
         redirect (fst (render (run w (Search s # pre)))) \<and>
         count_list (effects (run w (Search s # pre @ Render # post))) RedirectBrowse =
           count_list (effects w) RedirectBrowse + 1 \<and>
         \<not> onSearch_flag (run w (Search s # pre @ Render # post)) \<and>
         \<not> onSearch_flag (snd (render u)) \<and>
         \<not> redirect (fst (render (snd (render u)))) \<and>
         \<not> onSearch_flag (run a evs) \<and>
         count_list (effects (run a evs)) RedirectBrowse = count_list (effects a) RedirectBrowse"
proof -
  let ?w1 = "step w (Search s)"
  let ?w2 = "run ?w1 pre"
  let ?w3 = "step ?w2 Render"
  have 1: "onSearch_flag ?w1"
    "count_list (effects ?w1) RedirectBrowse = count_list (effects w) RedirectBrowse"
    using step_onSearch_flag [of w "Search s"] step_redirects [of w "Search s"]
    by (simp_all del: step.simps)
  have 2: "onSearch_flag ?w2"
    "count_list (effects ?w2) RedirectBrowse = count_list (effects w) RedirectBrowse"
    using run_armed [OF assms(1,2), of ?w1] 1 by simp_all
  have 3: "\<not> onSearch_flag ?w3"
    "count_list (effects ?w3) RedirectBrowse = count_list (effects w) RedirectBrowse + 1"
    using 2 step_onSearch_flag [of ?w2 Render] step_redirects [of ?w2 Render]
    by (simp_all del: step.simps)
  have 4: "\<not> onSearch_flag (run ?w3 post)"
    "count_list (effects (run ?w3 post)) RedirectBrowse = count_list (effects w) RedirectBrowse + 1"
    using run_disarmed [OF assms(3) 3(1)] 3(2) by simp_all
  have 5: "redirect (fst (render ?w2))"
    using 2(1) by (simp add: render_def)
  have 6: "\<not> onSearch_flag (snd (render u))" "\<not> redirect (fst (render (snd (render u))))"
    by (simp_all add: render_def)
  have eq: "run w (Search s # pre) = ?w2" "run w (Search s # pre @ Render # post) = run ?w3 post"
    by simp_all
  show ?thesis
    unfolding eq using 2(2) 5 4 6 run_disarmed [OF assms(5,4)] by blast
qed

theorem C5_witness:
  "(\<forall>s'. Search s' \<notin> set [OrderChange ''title'', Mount :: (nat, string, string, nat) event]) \<and>
   Render \<notin> set [OrderChange ''title'', Mount :: (nat, string, string, nat) event] \<and>
   (\<forall>s'. Search s' \<notin> set [Render, ScaleSlider 1, Render :: (nat, string, string, nat) event]) \<and>
   \<not> onSearch_flag app_example \<and>
   count_list (effects (run app_example
     (Search ''mario'' # [OrderChange ''title'', Mount] @ Render # [Render, ScaleSlider 1, Render])))
     RedirectBrowse = count_list (effects app_example) RedirectBrowse + 1 \<and>
   \<not> onSearch_flag (run app_example
     (Search ''mario'' # [OrderChange ''title'', Mount] @ Render # [Render, ScaleSlider 1, Render])) \<and>
   count_list (effects (run app_example [Render, ScaleSlider 1, Render])) RedirectBrowse =
     count_list (effects app_example) RedirectBrowse"
  using C5_search_redirects_once [where pre = "[OrderChange ''title'', Mount]"
      and post = "[Render, ScaleSlider 1, Render]" and a = app_example
      and evs = "[Render, ScaleSlider 1, Render]" and w = app_example and s = "''mario''"
      and u = app_example]
  by (simp add: app_example_def constructor_def del: run_Cons run_append run_Nil)

text \<open>
  Claim C8. \<^verbatim>\<open>onLogDataUpdate\<close> replaces the log text by the snapshot it receives;
  after any sequence of snapshots handed to it the text is the last one; and when the
  snapshots \<open>snaps @ [s]\<close> wait in the channel of a subscribed component, delivering
  them all leaves the last snapshot \<open>s\<close> as the text. The witness is the spec's scenario
  D: ``line1'' then ``line2'' displays ``line2''.
\<close>

theorem C8_log_snapshot_replaces_text:
  fixes u w :: "('g, 's, 'o, 'l) App"
  assumes "0 < listeners w" and "ipcQueue (channel w) = snaps @ [s]"
  shows "logData (state (onLogDataUpdate fullLog u)) = fullLog \<and>
         logData (state (foldl (\<lambda>a x. onLogDataUpdate x a) u (xs @ [x]))) = x \<and>
         logData (state (run w (replicate (length snaps + 1) IpcDeliver))) = s"
  using deliver_all [OF assms] by (simp add: onLogDataUpdate_def setState_def emit_def)

theorem C8_witness:
  "0 < listeners (run app_example [Mount, IpcDeliver, MainPush ''line1'', MainPush ''line2'']) \<and>
   ipcQueue (channel (run app_example [Mount, IpcDeliver, MainPush ''line1'', MainPush ''line2''])) =
     [''line1''] @ [''line2''] \<and>
   logData (state (foldl (\<lambda>a x. onLogDataUpdate x a) app_example ([''line1''] @ [''line2'']))) =
     ''line2'' \<and>
   logData (state (run (run app_example [Mount, IpcDeliver, MainPush ''line1'', MainPush ''line2''])
     (replicate (length [''line1''] + 1) IpcDeliver))) = ''line2''"
proof -
  let ?w = "run app_example [Mount, IpcDeliver, MainPush ''line1'', MainPush ''line2'']"
  have l: "0 < listeners ?w"
    by (simp add: app_example_def constructor_def handler_defs)
  have q: "ipcQueue (channel ?w) = [''line1''] @ [''line2'']"
    by (simp add: app_example_def constructor_def handler_defs)
  from C8_log_snapshot_replaces_text [OF l q, of "''line2''" app_example "[''line1'']" "''line2''"] l q
  show ?thesis
    by (simp del: run_Cons run_append run_Nil replicate_Suc)
qed



text \<open>
  Claim C10. Each preference setter changes \<^verbatim>\<open>this.state\<close> in its own field only and
  the preferences in its own field only, and nothing else of the component but the record
  of its two effects; \<^verbatim>\<open>onOrderChange\<close> changes the field \<^verbatim>\<open>order\<close> only and leaves
  the preferences as they are, its one effect being the \<^verbatim>\<open>setState\<close>.
\<close>

theorem C10_setters_change_only_their_field:
  fixes w :: "('g, 's, 'o, 'l) App"
  shows "state (onScaleSliderChange v w) = (state w)\<lparr>gameScale := v\<rparr> \<and>
         preferences_data (onScaleSliderChange v w) =
           (preferences_data w)\<lparr>browsePageGameScale := v\<rparr> \<and>
         state (onLayoutSelectorChange l w) = (state w)\<lparr>gameLayout := l\<rparr> \<and>
         preferences_data (onLayoutSelectorChange l w) =
           (preferences_data w)\<lparr>browsePageLayout := l\<rparr> \<and>
         state (onExtremeChange b w) = (state w)\<lparr>showExtreme := b\<rparr> \<and>
         preferences_data (onExtremeChange b w) =
           (preferences_data w)\<lparr>browsePageShowExtreme := b\<rparr> \<and>
         state (onOrderChange ev w) = (state w)\<lparr>order := Some ev\<rparr> \<and>
         preferences_data (onOrderChange ev w) = preferences_data w \<and>
         effects (onOrderChange ev w) = effects w @ [SetState F_order] \<and>
         onOrderChange ev w =
           w\<lparr>state := (state w)\<lparr>order := Some ev\<rparr>, effects := effects w @ [SetState F_order]\<rparr> \<and>
         onScaleSliderChange v w =
           w\<lparr>state := (state w)\<lparr>gameScale := v\<rparr>,
             preferences_data := (preferences_data w)\<lparr>browsePageGameScale := v\<rparr>,
             effects := effects w @ [SetState F_gameScale, PrefWrite P_browsePageGameScale]\<rparr> \<and>
         onLayoutSelectorChange l w =
           w\<lparr>state := (state w)\<lparr>gameLayout := l\<rparr>,
             preferences_data := (preferences_data w)\<lparr>browsePageLayout := l\<rparr>,
             effects := effects w @ [SetState F_gameLayout, PrefWrite P_browsePageLayout]\<rparr> \<and>
         onExtremeChange b w =
           w\<lparr>state := (state w)\<lparr>showExtreme := b\<rparr>,
             preferences_data := (preferences_data w)\<lparr>browsePageShowExtreme := b\<rparr>,
             effects := effects w @ [SetState F_showExtreme, PrefWrite P_browsePageShowExtreme]\<rparr>"
  by (simp add: handler_defs)

theorem C10_witness:
  "gameLayout (state (onScaleSliderChange (3/2) app_example)) = 0 \<and>
   showExtreme (state (onScaleSliderChange (3/2) app_example)) = False \<and>
   central (state (onScaleSliderChange (3/2) app_example)) = None \<and>
   search (state (onScaleSliderChange (3/2) app_example)) = None \<and>
   order (state (onScaleSliderChange (3/2) app_example)) = None \<and>
   logData (state (onScaleSliderChange (3/2) app_example)) = [] \<and>
   config (state (onScaleSliderChange (3/2) app_example)) = config_example \<and>
   useCustomTitlebar (state (onScaleSliderChange (3/2) app_example)) = True \<and>
   gameScale (state (onScaleSliderChange (3/2) app_example)) = 3/2 \<and>
   preferences_data (onScaleSliderChange (3/2) app_example) =
     \<lparr>browsePageGameScale = 3/2, browsePageLayout = 0, browsePageShowExtreme = False\<rparr> \<and>
   preferences_data (onOrderChange ''title'' app_example) = preferences_example \<and>
   order (state (onOrderChange ''title'' app_example)) = Some ''title''"
proof -
  have s: "state app_example =
     \<lparr>central = None, search = None, order = None, logData = [], config = config_example,
      gameScale = 1/2, gameLayout = 0, showExtreme = False, useCustomTitlebar = True\<rparr>"
    and p: "preferences_data app_example = preferences_example"
    by (simp_all add: app_example_def constructor_def preferences_example_def config_example_def)
  from C10_setters_change_only_their_field [of "3/2" app_example 0 False "''title''"]
  have "state (onScaleSliderChange (3/2) app_example) = (state app_example)\<lparr>gameScale := 3/2\<rparr>"
    and "preferences_data (onScaleSliderChange (3/2) app_example) =
           (preferences_data app_example)\<lparr>browsePageGameScale := 3/2\<rparr>"
    and "state (onOrderChange ''title'' app_example) = (state app_example)\<lparr>order := Some ''title''\<rparr>"
    and "preferences_data (onOrderChange ''title'' app_example) = preferences_data app_example"
    by blast+
  then show ?thesis
    by (simp add: s p preferences_example_def)
qed

end
